theory Spec2Isabelle
  imports Main "HOL-Library.Char_ord" "HOL-Library.List_Lexorder" "HOL-Library.Product_Lexorder"
    "HOL-Library.Multiset"
begin

section \<open>Data model\<close>

text \<open>
  Strings are \<open>string\<close>; a \<open>Buffer\<close> is the sequence of its characters. A JavaScript
  object or \<open>Map\<close> whose iteration order the code can observe is an association list in
  insertion order with unique keys; a \<open>Set\<close> is a duplicate-free list in insertion order.
  Two things JavaScript objects do are left out: keys that look like array indices are
  enumerated before all others, and \<open>in\<close> also finds the properties every object
  inherits (such as \<open>toString\<close>). Neither matters for a file map whose paths are
  ordinary file names.
\<close>

type_synonym PluginId = string
type_synonym Buffer = string
type_synonym FileMap = "(string \<times> Buffer) list"

text \<open>\<open>ProjectConfig\<close> (config.ts): an object whose properties are all strings.\<close>

type_synonym ProjectConfig = "(string \<times> string) list"

datatype VersionPosture = LatestMajor | PinnedMinor | PinnedExact

record RuntimeSafety =
  boundaryValidationRequired :: bool

record Process =
  codeownersRequired :: bool
  auditTrailRequired :: bool

record Policy =
  version :: string
  requiredChecks :: "string list"
  versionPosture :: VersionPosture
  runtimeSafety :: RuntimeSafety
  process :: Process

datatype PluginPhase = PhasePre | PhaseRender | PhasePost | PhaseCi
datatype ConflictPolicy = PolicyError | PolicyLastWins

text \<open>
  A plugin's \<open>apply(ctx)\<close> is opaque code that acts on the context through \<open>addFile\<close>,
  \<open>hasFile\<close> and \<open>getFile\<close> and may throw. It is modelled as the tree of those calls:
  each query continues with the answer the context gives.
\<close>

datatype prog =
    Return
  | Throw string
  | AddFile string Buffer prog
  | HasFile string "bool \<Rightarrow> prog"
  | GetFile string "Buffer option \<Rightarrow> prog"

text \<open>
  interface Plugin (plugin.ts). The fields \<open>id\<close>, \<open>version\<close> and \<open>apply\<close> carry a prime
  because the plain names are taken. \<open>validate\<close> is never called by the pipeline and is
  left out.
\<close>

record Plugin =
  id' :: PluginId
  version' :: string
  dependencies :: "PluginId list option"
  appliesTo :: "ProjectConfig \<Rightarrow> bool"
  phase :: "PluginPhase option"
  conflictPolicy :: "ConflictPolicy option"
  apply' :: "ProjectConfig \<Rightarrow> Policy \<Rightarrow> prog"

text \<open>Every \<open>throw new Error(...)\<close> of the engine, by the kind of failure it reports.\<close>

datatype error =
    DuplicatePluginId PluginId
  | DependencyCycle "string list"
  | MissingDependency "string list"
  | PluginNotFound PluginId
  | FileConflict string "PluginId list"
  | PluginApplyFailure string

section \<open>InMemoryPluginRegistry\<close>

text \<open>\<open>private plugins: Map<PluginId, Plugin>\<close>, in insertion order.\<close>

type_synonym PluginRegistry = "(PluginId \<times> Plugin) list"

definition get :: "PluginRegistry \<Rightarrow> PluginId \<Rightarrow> Plugin option" where
  "get reg i = map_of reg i"

definition has :: "PluginRegistry \<Rightarrow> PluginId \<Rightarrow> bool" where
  "has reg i = (i \<in> set (map fst reg))"

text \<open>
  \<open>register\<close> returns the outcome together with the registry as it is afterwards: the
  throw happens before the map is touched.
\<close>

definition register :: "Plugin \<Rightarrow> PluginRegistry \<Rightarrow> (error + unit) \<times> PluginRegistry" where
  "register plugin reg =
     (if has reg (id' plugin) then (Inl (DuplicatePluginId (id' plugin)), reg)
      else (Inr (), reg @ [(id' plugin, plugin)]))"

definition getAll :: "PluginRegistry \<Rightarrow> Plugin list" where
  "getAll reg = map snd reg"

text \<open>The operations a client can run on a registry, and a run of a sequence of them.\<close>

datatype registryOp = OpRegister Plugin | OpGet PluginId | OpGetAll

fun step :: "PluginRegistry \<Rightarrow> registryOp \<Rightarrow> PluginRegistry" where
  "step reg (OpRegister p) = snd (register p reg)"
| "step reg (OpGet i) = reg"
| "step reg OpGetAll = reg"

definition run :: "registryOp list \<Rightarrow> PluginRegistry" where
  "run ops = foldl step [] ops"

text \<open>A registry as \<open>register\<close> builds it: unique keys, each the id of its plugin.\<close>

definition wellFormed :: "PluginRegistry \<Rightarrow> bool" where
  "wellFormed reg = (distinct (map fst reg) \<and> list_all (\<lambda>(k, p). k = id' p) reg)"

section \<open>Registry: proofs\<close>

lemma has_iff_get: "has reg i = (get reg i \<noteq> None)"
  by (simp add: has_def get_def map_of_eq_None_iff)

lemma wellFormed_step: "wellFormed reg \<Longrightarrow> wellFormed (step reg op)"
  by (cases op) (auto simp: wellFormed_def register_def has_def)

lemma wellFormed_foldl: "wellFormed reg \<Longrightarrow> wellFormed (foldl step reg ops)"
  by (induction ops arbitrary: reg) (simp_all add: wellFormed_step)

lemma wellFormed_run: "wellFormed (run ops)"
  unfolding run_def by (rule wellFormed_foldl) (simp add: wellFormed_def)


text \<open>
  C9. \<open>register(plugin)\<close> fails exactly when the id is already registered, and then with
  DuplicatePluginId and the registry unchanged; when it succeeds, \<open>get(plugin.id)\<close> returns
  that plugin; and after every sequence of operations from the empty registry the ids of
  the registry are pairwise distinct.
\<close>

theorem register_spec:
  "(fst (register p reg) = Inl (DuplicatePluginId (id' p))) = has reg (id' p)
   \<and> (fst (register p reg) = Inr ()) = (\<not> has reg (id' p))
   \<and> (has reg (id' p) \<longrightarrow> snd (register p reg) = reg)
   \<and> (\<not> has reg (id' p) \<longrightarrow> get (snd (register p reg)) (id' p) = Some p)
   \<and> distinct (map fst (run ops))
   \<and> distinct (map id' (getAll (run ops)))"
proof -
  have wf: "wellFormed (run ops)" by (rule wellFormed_run)
  have "map id' (getAll (run ops)) = map fst (run ops)"
    using wf by (auto simp: wellFormed_def getAll_def list_all_iff)
  moreover have "distinct (map fst (run ops))"
    using wf by (simp add: wellFormed_def)
  moreover have "\<not> has reg (id' p) \<Longrightarrow> get (snd (register p reg)) (id' p) = Some p"
    by (simp add: register_def get_def has_def map_add_def map_of_eq_None_iff [symmetric])
  ultimately show ?thesis
    by (simp add: register_def)
qed

text \<open>The \<open>TestPlugin\<close> class of the repository's plugin tests: applies always, writes nothing.\<close>

definition TestPlugin :: "PluginId \<Rightarrow> PluginId list option \<Rightarrow> PluginPhase option \<Rightarrow> Plugin" where
  "TestPlugin i deps ph =
     \<lparr>id' = i, version' = ''0.1.0'', dependencies = deps, appliesTo = (\<lambda>_. True),
      phase = ph, conflictPolicy = None, apply' = (\<lambda>_ _. Return)\<rparr>"

theorem register_spec_witness:
  "has [(''a'', TestPlugin ''a'' None None)] ''a''
   \<and> snd (register (TestPlugin ''a'' None None) [(''a'', TestPlugin ''a'' None None)])
       = [(''a'', TestPlugin ''a'' None None)]
   \<and> \<not> has [] ''b''
   \<and> get (snd (register (TestPlugin ''b'' None None) [])) ''b'' = Some (TestPlugin ''b'' None None)"
  using register_spec [of "TestPlugin ''a'' None None" "[(''a'', TestPlugin ''a'' None None)]" "[]"]
    register_spec [of "TestPlugin ''b'' None None" "[]" "[]"]
  by (simp add: has_def TestPlugin_def)

section \<open>PolicyResolver (policy.ts)\<close>

text \<open>
  \<open>Partial<Policy>\<close>: every property may be absent. The nested groups are spread key by
  key, so their properties may be absent as well.
\<close>

record PartialRuntimeSafety =
  boundaryValidationRequired_opt :: "bool option"

record PartialProcess =
  codeownersRequired_opt :: "bool option"
  auditTrailRequired_opt :: "bool option"

record PartialPolicy =
  version_opt :: "string option"
  requiredChecks_opt :: "string list option"
  versionPosture_opt :: "VersionPosture option"
  runtimeSafety_opt :: "PartialRuntimeSafety option"
  process_opt :: "PartialProcess option"

definition BASE_POLICY :: Policy where
  "BASE_POLICY =
     \<lparr>version = ''1.0.0'', requiredChecks = [], versionPosture = LatestMajor,
      runtimeSafety = \<lparr>boundaryValidationRequired = False\<rparr>,
      process = \<lparr>codeownersRequired = False, auditTrailRequired = False\<rparr>\<rparr>"

definition PRESET_startup :: PartialPolicy where
  "PRESET_startup =
     \<lparr>version_opt = None, requiredChecks_opt = Some [''lint'', ''typecheck''],
      versionPosture_opt = Some LatestMajor,
      runtimeSafety_opt = Some \<lparr>boundaryValidationRequired_opt = Some False\<rparr>,
      process_opt = None\<rparr>"

definition PRESET_pro :: PartialPolicy where
  "PRESET_pro =
     \<lparr>version_opt = None, requiredChecks_opt = Some [''lint'', ''typecheck'', ''test'', ''build''],
      versionPosture_opt = Some PinnedMinor,
      runtimeSafety_opt = Some \<lparr>boundaryValidationRequired_opt = Some True\<rparr>,
      process_opt = None\<rparr>"

definition PRESET_enterprise :: PartialPolicy where
  "PRESET_enterprise =
     \<lparr>version_opt = None,
      requiredChecks_opt =
        Some [''lint'', ''typecheck'', ''test'', ''build'', ''e2e'', ''security'', ''audit''],
      versionPosture_opt = Some PinnedExact,
      runtimeSafety_opt = Some \<lparr>boundaryValidationRequired_opt = Some True\<rparr>,
      process_opt = Some \<lparr>codeownersRequired_opt = Some True, auditTrailRequired_opt = Some True\<rparr>\<rparr>"

definition PRESET_POLICIES :: "string \<Rightarrow> PartialPolicy option" where
  "PRESET_POLICIES k =
     (if k = ''startup'' then Some PRESET_startup
      else if k = ''pro'' then Some PRESET_pro
      else if k = ''enterprise'' then Some PRESET_enterprise
      else None)"

text \<open>\<open>{...a, ...b}\<close> on one property: the later object wins where it has the property.\<close>

definition spread :: "'a \<Rightarrow> 'a option \<Rightarrow> 'a" where
  "spread base over = (case over of None \<Rightarrow> base | Some v \<Rightarrow> v)"

definition spreadRuntimeSafety :: "RuntimeSafety \<Rightarrow> PartialRuntimeSafety option \<Rightarrow> RuntimeSafety" where
  "spreadRuntimeSafety base over =
     \<lparr>boundaryValidationRequired =
        spread (boundaryValidationRequired base) (Option.bind over boundaryValidationRequired_opt)\<rparr>"

definition spreadProcess :: "Process \<Rightarrow> PartialProcess option \<Rightarrow> Process" where
  "spreadProcess base over =
     \<lparr>codeownersRequired = spread (codeownersRequired base) (Option.bind over codeownersRequired_opt),
      auditTrailRequired = spread (auditTrailRequired base) (Option.bind over auditTrailRequired_opt)\<rparr>"

text \<open>The object literal that \<open>resolvePolicy\<close> returns, for a given \<open>preset\<close>.\<close>

definition mergePreset :: "PartialPolicy option \<Rightarrow> Policy" where
  "mergePreset preset =
     \<lparr>version = spread (version BASE_POLICY) (Option.bind preset version_opt),
      requiredChecks = spread (requiredChecks BASE_POLICY) (Option.bind preset requiredChecks_opt),
      versionPosture = spread (versionPosture BASE_POLICY) (Option.bind preset versionPosture_opt),
      runtimeSafety =
        spreadRuntimeSafety (runtimeSafety BASE_POLICY) (Option.bind preset runtimeSafety_opt),
      process = spreadProcess (process BASE_POLICY) (Option.bind preset process_opt)\<rparr>"

definition resolvePolicy :: "ProjectConfig \<Rightarrow> Policy" where
  "resolvePolicy config =
     mergePreset (Option.bind (map_of config ''strictnessPreset'') PRESET_POLICIES)"

section \<open>Policy: proofs\<close>



lemma requiredChecks_presets:
  "requiredChecks (resolvePolicy [(''strictnessPreset'', ''startup'')]) = [''lint'', ''typecheck'']"
  "requiredChecks (resolvePolicy [(''strictnessPreset'', ''pro'')]) =
     [''lint'', ''typecheck'', ''test'', ''build'']"
  "requiredChecks (resolvePolicy [(''strictnessPreset'', ''enterprise'')]) =
     [''lint'', ''typecheck'', ''test'', ''build'', ''e2e'', ''security'', ''audit'']"
  by (simp_all add: resolvePolicy_def mergePreset_def PRESET_POLICIES_def PRESET_startup_def
        PRESET_pro_def PRESET_enterprise_def spread_def)

lemma psubset_witness: "A \<subseteq> B \<Longrightarrow> x \<in> B \<Longrightarrow> x \<notin> A \<Longrightarrow> A \<subset> B"
  by blast

lemma requiredChecks_startup_pro: "set (requiredChecks (resolvePolicy [(''strictnessPreset'', ''startup'')]))
       \<subset> set (requiredChecks (resolvePolicy [(''strictnessPreset'', ''pro'')]))"
  unfolding requiredChecks_presets
  by (rule psubset_witness [where x = "''test''"]) simp_all

lemma requiredChecks_pro_enterprise: "set (requiredChecks (resolvePolicy [(''strictnessPreset'', ''pro'')]))
       \<subset> set (requiredChecks (resolvePolicy [(''strictnessPreset'', ''enterprise'')]))"
  unfolding requiredChecks_presets
  by (rule psubset_witness [where x = "''e2e''"]) simp_all

lemma mergePreset_None: "mergePreset None = BASE_POLICY"
    by (simp add: mergePreset_def spreadProcess_def spreadRuntimeSafety_def spread_def)

lemma nested_spread: "codeownersRequired (process (mergePreset (Some (p\<lparr>process_opt :=
         Some \<lparr>codeownersRequired_opt = None, auditTrailRequired_opt = Some a\<rparr>\<rparr>))))
       = codeownersRequired (process BASE_POLICY)"
    "auditTrailRequired (process (mergePreset (Some (p\<lparr>process_opt :=
         Some \<lparr>codeownersRequired_opt = Some a, auditTrailRequired_opt = None\<rparr>\<rparr>))))
       = auditTrailRequired (process BASE_POLICY)"
    "boundaryValidationRequired (runtimeSafety (mergePreset (Some (p\<lparr>runtimeSafety_opt :=
         Some \<lparr>boundaryValidationRequired_opt = None\<rparr>\<rparr>))))
       = boundaryValidationRequired (runtimeSafety BASE_POLICY)"
    "process (mergePreset (Some (p\<lparr>process_opt := None\<rparr>))) = process BASE_POLICY"
    by (simp_all add: mergePreset_def spreadProcess_def spreadRuntimeSafety_def spread_def)


lemma resolvePolicy_presets:
    "map_of config ''strictnessPreset'' = Some ''startup'' \<Longrightarrow>
        resolvePolicy config =
          \<lparr>version = ''1.0.0'', requiredChecks = [''lint'', ''typecheck''],
           versionPosture = LatestMajor,
           runtimeSafety = \<lparr>boundaryValidationRequired = False\<rparr>,
           process = \<lparr>codeownersRequired = False, auditTrailRequired = False\<rparr>\<rparr>"
    "map_of config ''strictnessPreset'' = Some ''pro'' \<Longrightarrow>
        resolvePolicy config =
          \<lparr>version = ''1.0.0'', requiredChecks = [''lint'', ''typecheck'', ''test'', ''build''],
           versionPosture = PinnedMinor,
           runtimeSafety = \<lparr>boundaryValidationRequired = True\<rparr>,
           process = \<lparr>codeownersRequired = False, auditTrailRequired = False\<rparr>\<rparr>"
    "map_of config ''strictnessPreset'' = Some ''enterprise'' \<Longrightarrow>
        resolvePolicy config =
          \<lparr>version = ''1.0.0'',
           requiredChecks =
             [''lint'', ''typecheck'', ''test'', ''build'', ''e2e'', ''security'', ''audit''],
           versionPosture = PinnedExact,
           runtimeSafety = \<lparr>boundaryValidationRequired = True\<rparr>,
           process = \<lparr>codeownersRequired = True, auditTrailRequired = True\<rparr>\<rparr>"
    by (simp_all add: resolvePolicy_def mergePreset_def PRESET_POLICIES_def PRESET_startup_def
        PRESET_pro_def PRESET_enterprise_def BASE_POLICY_def spreadProcess_def
        spreadRuntimeSafety_def spread_def)

text \<open>
  C8. \<open>resolvePolicy\<close> is the base policy overlaid with the preset that
  \<open>config.strictnessPreset\<close> selects; the nested groups are merged field by field, so a
  nested flag that an override leaves out keeps its base value; the required checks grow
  strictly from startup to pro to enterprise; the version posture is latest-major,
  pinned-minor, pinned-exact; code owners and audit trail are required for enterprise only.
\<close>

theorem resolvePolicy_spec:
  "resolvePolicy config =
     mergePreset (Option.bind (map_of config ''strictnessPreset'') PRESET_POLICIES)
   \<and> mergePreset None = BASE_POLICY
   \<and> codeownersRequired (process (mergePreset (Some (p\<lparr>process_opt :=
         Some \<lparr>codeownersRequired_opt = None, auditTrailRequired_opt = Some a\<rparr>\<rparr>))))
       = codeownersRequired (process BASE_POLICY)
   \<and> auditTrailRequired (process (mergePreset (Some (p\<lparr>process_opt :=
         Some \<lparr>codeownersRequired_opt = Some a, auditTrailRequired_opt = None\<rparr>\<rparr>))))
       = auditTrailRequired (process BASE_POLICY)
   \<and> boundaryValidationRequired (runtimeSafety (mergePreset (Some (p\<lparr>runtimeSafety_opt :=
         Some \<lparr>boundaryValidationRequired_opt = None\<rparr>\<rparr>))))
       = boundaryValidationRequired (runtimeSafety BASE_POLICY)
   \<and> process (mergePreset (Some (p\<lparr>process_opt := None\<rparr>))) = process BASE_POLICY
   \<and> set (requiredChecks (resolvePolicy [(''strictnessPreset'', ''startup'')]))
       \<subset> set (requiredChecks (resolvePolicy [(''strictnessPreset'', ''pro'')]))
   \<and> set (requiredChecks (resolvePolicy [(''strictnessPreset'', ''pro'')]))
       \<subset> set (requiredChecks (resolvePolicy [(''strictnessPreset'', ''enterprise'')]))
   \<and> (map_of config ''strictnessPreset'' = Some ''startup'' \<longrightarrow>
        resolvePolicy config =
          \<lparr>version = ''1.0.0'', requiredChecks = [''lint'', ''typecheck''],
           versionPosture = LatestMajor,
           runtimeSafety = \<lparr>boundaryValidationRequired = False\<rparr>,
           process = \<lparr>codeownersRequired = False, auditTrailRequired = False\<rparr>\<rparr>)
   \<and> (map_of config ''strictnessPreset'' = Some ''pro'' \<longrightarrow>
        resolvePolicy config =
          \<lparr>version = ''1.0.0'', requiredChecks = [''lint'', ''typecheck'', ''test'', ''build''],
           versionPosture = PinnedMinor,
           runtimeSafety = \<lparr>boundaryValidationRequired = True\<rparr>,
           process = \<lparr>codeownersRequired = False, auditTrailRequired = False\<rparr>\<rparr>)
   \<and> (map_of config ''strictnessPreset'' = Some ''enterprise'' \<longrightarrow>
        resolvePolicy config =
          \<lparr>version = ''1.0.0'',
           requiredChecks =
             [''lint'', ''typecheck'', ''test'', ''build'', ''e2e'', ''security'', ''audit''],
           versionPosture = PinnedExact,
           runtimeSafety = \<lparr>boundaryValidationRequired = True\<rparr>,
           process = \<lparr>codeownersRequired = True, auditTrailRequired = True\<rparr>\<rparr>)"
  apply (intro conjI impI)
            apply (rule resolvePolicy_def)
           apply (rule mergePreset_None)
          apply (rule nested_spread)
         apply (rule nested_spread)
        apply (rule nested_spread)
       apply (rule nested_spread)
      apply (rule requiredChecks_startup_pro)
     apply (rule requiredChecks_pro_enterprise)
    apply (erule resolvePolicy_presets)
   apply (erule resolvePolicy_presets)
  apply (erule resolvePolicy_presets)
  done

theorem resolvePolicy_spec_witness:
  "map_of [(''projectType'', ''nextjs''), (''strictnessPreset'', ''startup'')]
     ''strictnessPreset'' = Some ''startup''
   \<and> versionPosture
         (resolvePolicy [(''projectType'', ''nextjs''), (''strictnessPreset'', ''startup'')])
       = LatestMajor
   \<and> map_of [(''projectType'', ''nextjs''), (''strictnessPreset'', ''pro'')]
     ''strictnessPreset'' = Some ''pro''
   \<and> versionPosture
         (resolvePolicy [(''projectType'', ''nextjs''), (''strictnessPreset'', ''pro'')])
       = PinnedMinor
   \<and> map_of [(''projectType'', ''nextjs''), (''strictnessPreset'', ''enterprise'')]
     ''strictnessPreset'' = Some ''enterprise''
   \<and> process
         (resolvePolicy [(''projectType'', ''nextjs''), (''strictnessPreset'', ''enterprise'')])
       = \<lparr>codeownersRequired = True, auditTrailRequired = True\<rparr>"
proof -
  have h1: "map_of [(''projectType'', ''nextjs''), (''strictnessPreset'', ''startup'')]
     ''strictnessPreset'' = Some ''startup''" by simp
  have h2: "map_of [(''projectType'', ''nextjs''), (''strictnessPreset'', ''pro'')]
     ''strictnessPreset'' = Some ''pro''" by simp
  have h3: "map_of [(''projectType'', ''nextjs''), (''strictnessPreset'', ''enterprise'')]
     ''strictnessPreset'' = Some ''enterprise''" by simp
  from h1 resolvePolicy_spec
    [of "[(''projectType'', ''nextjs''), (''strictnessPreset'', ''startup'')]"]
  have e1: "resolvePolicy [(''projectType'', ''nextjs''), (''strictnessPreset'', ''startup'')] =
          \<lparr>version = ''1.0.0'', requiredChecks = [''lint'', ''typecheck''],
           versionPosture = LatestMajor,
           runtimeSafety = \<lparr>boundaryValidationRequired = False\<rparr>,
           process = \<lparr>codeownersRequired = False, auditTrailRequired = False\<rparr>\<rparr>"
    by blast
  from h2 resolvePolicy_spec
    [of "[(''projectType'', ''nextjs''), (''strictnessPreset'', ''pro'')]"]
  have e2: "resolvePolicy [(''projectType'', ''nextjs''), (''strictnessPreset'', ''pro'')] =
          \<lparr>version = ''1.0.0'', requiredChecks = [''lint'', ''typecheck'', ''test'', ''build''],
           versionPosture = PinnedMinor,
           runtimeSafety = \<lparr>boundaryValidationRequired = True\<rparr>,
           process = \<lparr>codeownersRequired = False, auditTrailRequired = False\<rparr>\<rparr>"
    by blast
  from h3 resolvePolicy_spec
    [of "[(''projectType'', ''nextjs''), (''strictnessPreset'', ''enterprise'')]"]
  have e3: "resolvePolicy [(''projectType'', ''nextjs''), (''strictnessPreset'', ''enterprise'')] =
          \<lparr>version = ''1.0.0'',
           requiredChecks =
             [''lint'', ''typecheck'', ''test'', ''build'', ''e2e'', ''security'', ''audit''],
           versionPosture = PinnedExact,
           runtimeSafety = \<lparr>boundaryValidationRequired = True\<rparr>,
           process = \<lparr>codeownersRequired = True, auditTrailRequired = True\<rparr>\<rparr>"
    by blast
  have r1: "versionPosture
         (resolvePolicy [(''projectType'', ''nextjs''), (''strictnessPreset'', ''startup'')])
       = LatestMajor"
    unfolding e1 by simp
  have r2: "versionPosture
         (resolvePolicy [(''projectType'', ''nextjs''), (''strictnessPreset'', ''pro'')])
       = PinnedMinor"
    unfolding e2 by simp
  have r3: "process
         (resolvePolicy [(''projectType'', ''nextjs''), (''strictnessPreset'', ''enterprise'')])
       = \<lparr>codeownersRequired = True, auditTrailRequired = True\<rparr>"
    unfolding e3 by simp
  from h1 h2 h3 r1 r2 r3 show ?thesis by blast
qed

section \<open>DependencyGraphResolver (plugin.ts)\<close>

text \<open>\<open>Set.add\<close>, \<open>Set.delete\<close> and \<open>new Set(array)\<close> on a set kept in insertion order.\<close>

definition setAdd :: "'a list \<Rightarrow> 'a \<Rightarrow> 'a list" where
  "setAdd s x = (if x \<in> set s then s else s @ [x])"

definition setDelete :: "'a list \<Rightarrow> 'a \<Rightarrow> 'a list" where
  "setDelete s x = removeAll x s"

definition newSet :: "'a list \<Rightarrow> 'a list" where
  "newSet xs = foldl setAdd [] xs"

text \<open>\<open>Map.set\<close>: a key already present keeps its place.\<close>

definition mapSet :: "('k \<times> 'v) list \<Rightarrow> 'k \<Rightarrow> 'v \<Rightarrow> ('k \<times> 'v) list" where
  "mapSet m k v =
     (if k \<in> set (map fst m) then map (\<lambda>(k', v'). if k' = k then (k', v) else (k', v')) m
      else m @ [(k, v)])"

record DependencyGraph =
  nodes :: "PluginId list"
  edges :: "(PluginId \<times> PluginId list) list"

definition addPlugin :: "DependencyGraph \<Rightarrow> Plugin \<Rightarrow> DependencyGraph" where
  "addPlugin g plugin =
     (let nodes1 = setAdd (nodes g) (id' plugin) in
      case dependencies plugin of
        Some deps \<Rightarrow>
          if length deps > 0 then
            \<lparr>nodes = foldl setAdd nodes1 deps,
             edges = mapSet (edges g) (id' plugin) (newSet deps)\<rparr>
          else \<lparr>nodes = nodes1, edges = edges g\<rparr>
      | None \<Rightarrow> \<lparr>nodes = nodes1, edges = edges g\<rparr>)"

definition buildDependencyGraph :: "Plugin list \<Rightarrow> DependencyGraph" where
  "buildDependencyGraph plugins = foldl addPlugin \<lparr>nodes = [], edges = []\<rparr> plugins"

text \<open>\<open>Array.join\<close>, \<open>Array.indexOf\<close> (\<open>None\<close> for -1) and \<open>Array.slice(start)\<close>, where a
  start of -1 keeps the last element.\<close>

fun join :: "string list \<Rightarrow> string \<Rightarrow> string" where
  "join [] sep = []"
| "join [x] sep = x"
| "join (x # y # ys) sep = x @ sep @ join (y # ys) sep"

fun indexOf :: "'a list \<Rightarrow> 'a \<Rightarrow> nat option" where
  "indexOf [] x = None"
| "indexOf (y # ys) x = (if y = x then Some 0 else map_option Suc (indexOf ys x))"

definition slice :: "'a list \<Rightarrow> nat option \<Rightarrow> 'a list" where
  "slice xs start = (case start of Some n \<Rightarrow> drop n xs | None \<Rightarrow> drop (length xs - 1) xs)"

text \<open>The three variables that \<open>detectCycles\<close> closes over.\<close>

record cycleState =
  errors :: "string list"
  visited :: "PluginId list"
  recursionStack :: "PluginId list"

function (domintros)
  visitCycle :: "DependencyGraph \<Rightarrow> PluginId \<Rightarrow> PluginId list \<Rightarrow> cycleState \<Rightarrow> cycleState"
  and visitCycleDeps ::
    "DependencyGraph \<Rightarrow> PluginId list \<Rightarrow> PluginId list \<Rightarrow> cycleState \<Rightarrow> cycleState"
where
  "visitCycle g node path st =
     (if node \<in> set (recursionStack st) then
        st\<lparr>errors := errors st @
          [''Dependency cycle detected: '' @
             join (slice path (indexOf path node) @ [node]) '' -> '']\<rparr>
      else if node \<in> set (visited st) then st
      else
        let st1 = st\<lparr>visited := setAdd (visited st) node,
                      recursionStack := setAdd (recursionStack st) node\<rparr>;
            st2 = (case map_of (edges g) node of
                     Some deps \<Rightarrow> visitCycleDeps g deps (path @ [node]) st1
                   | None \<Rightarrow> st1)
        in st2\<lparr>recursionStack := setDelete (recursionStack st2) node\<rparr>)"
| "visitCycleDeps g [] path st = st"
| "visitCycleDeps g (dep # deps) path st = visitCycleDeps g deps path (visitCycle g dep path st)"
  by pat_completeness auto

lemma visitCycle_dom_mono:
  "visitCycle_visitCycleDeps_dom (Inl (g, node, path, st)) \<Longrightarrow>
     set (visited st) \<subseteq> set (visited (visitCycle g node path st))"
  "visitCycle_visitCycleDeps_dom (Inr (g, deps, path, st)) \<Longrightarrow>
     set (visited st) \<subseteq> set (visited (visitCycleDeps g deps path st))"
proof (induction g node path st and g deps path st rule: visitCycle_visitCycleDeps.pinduct)
  case (1 g node path st)
  then show ?case
    by (auto simp: visitCycle.psimps Let_def setAdd_def split: option.splits)
next
  case (2 g path st)
  then show ?case by (simp add: visitCycleDeps.psimps)
next
  case (3 g dep deps path st)
  then show ?case by (auto simp: visitCycleDeps.psimps)
qed

definition visitCycleMeasure ::
  "DependencyGraph \<times> PluginId \<times> PluginId list \<times> cycleState +
   DependencyGraph \<times> PluginId list \<times> PluginId list \<times> cycleState \<Rightarrow> nat \<times> nat" where
  "visitCycleMeasure x = (case x of
       Inl (g, node, path, st) \<Rightarrow> (card (fst ` set (edges g) - set (visited st)), 0)
     | Inr (g, deps, path, st) \<Rightarrow>
         (card (fst ` set (edges g) - set (visited st)), Suc (length deps)))"

lemma card_keys_less:
  assumes "map_of m k = Some v" "k \<notin> set vs"
  shows "card (fst ` set m - set (setAdd vs k)) < card (fst ` set m - set vs)"
proof -
  have "(k, v) \<in> set m" using assms(1) by (rule map_of_SomeD)
  then have "k \<in> fst ` set m" by force
  then have "fst ` set m - set (setAdd vs k) \<subset> fst ` set m - set vs"
    using assms(2) by (auto simp: setAdd_def)
  moreover have "finite (fst ` set m - set vs)" by simp
  ultimately show ?thesis by (rule psubset_card_mono [rotated])
qed

lemma card_keys_le:
  "set vs \<subseteq> set vs' \<Longrightarrow> card (fst ` set m - set vs') \<le> card (fst ` set m - set vs)"
  by (rule card_mono) auto

termination visitCycle
proof (relation "inv_image (less_than <*lex*> less_than) visitCycleMeasure", goal_cases)
  case 1
  show ?case by (intro wf_inv_image wf_lex_prod wf_less_than)
next
  case 2
  then show ?case by (simp add: visitCycleMeasure_def card_keys_less)
next
  case 3
  show ?case by (simp add: visitCycleMeasure_def)
next
  case (4 g dep deps path st)
  then have "set (visited st) \<subseteq> set (visited (visitCycle g dep path st))"
    by (rule visitCycle_dom_mono)
  then have "card (fst ` set (edges g) - set (visited (visitCycle g dep path st)))
      \<le> card (fst ` set (edges g) - set (visited st))"
    by (rule card_keys_le)
  then show ?case by (auto simp: visitCycleMeasure_def)
qed

declare visitCycle.simps [simp del]

definition detectCycles :: "DependencyGraph \<Rightarrow> string list" where
  "detectCycles g =
     errors (foldl (\<lambda>st node. if node \<notin> set (visited st) then visitCycle g node [] st else st)
       \<lparr>errors = [], visited = [], recursionStack = []\<rparr> (nodes g))"

text \<open>The three variables that \<open>resolvePluginOrder\<close> closes over.\<close>

record orderState =
  sorted' :: "Plugin list"
  visited' :: "PluginId list"
  visiting :: "PluginId list"

function (domintros)
  visitOrder :: "PluginRegistry \<Rightarrow> PluginId \<Rightarrow> orderState \<Rightarrow> error + orderState"
  and visitOrderEach :: "PluginRegistry \<Rightarrow> PluginId list \<Rightarrow> orderState \<Rightarrow> error + orderState"
where
  "visitOrder registry pluginId st =
     (if pluginId \<in> set (visiting st) then Inr st
      else if pluginId \<in> set (visited' st) then Inr st
      else
        let st1 = st\<lparr>visiting := setAdd (visiting st) pluginId\<rparr> in
        case get registry pluginId of
          None \<Rightarrow> Inl (PluginNotFound pluginId)
        | Some plugin \<Rightarrow>
            (case (case dependencies plugin of
                     Some deps \<Rightarrow> visitOrderEach registry (sort deps) st1
                   | None \<Rightarrow> Inr st1) of
               Inl e \<Rightarrow> Inl e
             | Inr st2 \<Rightarrow>
                 let st3 = st2\<lparr>visiting := setDelete (visiting st2) pluginId,
                               visited' := setAdd (visited' st2) pluginId\<rparr>
                 in Inr (if find (\<lambda>p. id' p = pluginId) (sorted' st3) = None
                         then st3\<lparr>sorted' := sorted' st3 @ [plugin]\<rparr> else st3)))"
| "visitOrderEach registry [] st = Inr st"
| "visitOrderEach registry (dep # deps) st =
     (case visitOrder registry dep st of
        Inl e \<Rightarrow> Inl e
      | Inr st' \<Rightarrow> visitOrderEach registry deps st')"
  by pat_completeness auto

definition seen :: "orderState \<Rightarrow> PluginId set" where
  "seen st = set (visiting st) \<union> set (visited' st)"

lemma visitOrder_dom_mono:
  "visitOrder_visitOrderEach_dom (Inl (registry, pluginId, st)) \<Longrightarrow>
     visitOrder registry pluginId st = Inr st' \<Longrightarrow> seen st \<subseteq> seen st'"
  "visitOrder_visitOrderEach_dom (Inr (registry, deps, st)) \<Longrightarrow>
     visitOrderEach registry deps st = Inr st' \<Longrightarrow> seen st \<subseteq> seen st'"
proof (induction registry pluginId st and registry deps st arbitrary: st' and st'
    rule: visitOrder_visitOrderEach.pinduct)
  case (1 registry pluginId st)
  show ?case
  proof (cases "pluginId \<in> set (visiting st) \<or> pluginId \<in> set (visited' st)")
    case True
    with 1(1,3) show ?thesis by (auto simp: visitOrder.psimps split: if_splits)
  next
    case False
    let ?st1 = "st\<lparr>visiting := setAdd (visiting st) pluginId\<rparr>"
    from False 1(1,3) obtain plugin where pl: "get registry pluginId = Some plugin"
      by (auto simp: visitOrder.psimps Let_def split: option.splits)
    from False 1(1,3) pl obtain st2 where
      st2: "(case dependencies plugin of
               Some deps \<Rightarrow> visitOrderEach registry (sort deps) ?st1
             | None \<Rightarrow> Inr ?st1) = Inr st2"
      by (auto simp: visitOrder.psimps Let_def split: sum.splits)
    have "seen ?st1 \<subseteq> seen st2"
    proof (cases "dependencies plugin")
      case None
      with st2 show ?thesis by simp
    next
      case (Some deps)
      with st2 have "visitOrderEach registry (sort deps) ?st1 = Inr st2" by simp
      with 1(2) False pl Some show ?thesis by blast
    qed
    moreover have "seen st \<subseteq> seen ?st1" by (auto simp: seen_def setAdd_def)
    moreover have "seen st2 \<subseteq> seen st'"
    proof -
      have "Inr st' = visitOrder registry pluginId st" using 1(3) by simp
      also have "\<dots> = (let st3 = st2\<lparr>visiting := setDelete (visiting st2) pluginId,
                               visited' := setAdd (visited' st2) pluginId\<rparr>
                 in Inr (if find (\<lambda>p. id' p = pluginId) (sorted' st3) = None
                         then st3\<lparr>sorted' := sorted' st3 @ [plugin]\<rparr> else st3))"
        using False pl st2 by (simp add: visitOrder.psimps [OF 1(1)] Let_def)
      finally show ?thesis
        by (auto simp: Let_def seen_def setAdd_def setDelete_def split: if_splits)
    qed
    ultimately show ?thesis by blast
  qed
next
  case (2 registry st)
  then show ?case by (simp add: visitOrderEach.psimps)
next
  case (3 registry dep deps st)
  from 3(1,4) obtain st1 where s1: "visitOrder registry dep st = Inr st1"
    and s2: "visitOrderEach registry deps st1 = Inr st'"
    by (auto simp: visitOrderEach.psimps split: sum.splits)
  from 3(2) [OF s1] 3(3) [OF s1 s2] show ?case by blast
qed

definition visitOrderMeasure ::
  "PluginRegistry \<times> PluginId \<times> orderState + PluginRegistry \<times> PluginId list \<times> orderState
   \<Rightarrow> nat \<times> nat" where
  "visitOrderMeasure x = (case x of
       Inl (registry, pluginId, st) \<Rightarrow> (card (fst ` set registry - seen st), 0)
     | Inr (registry, deps, st) \<Rightarrow> (card (fst ` set registry - seen st), Suc (length deps)))"

lemma card_seen_less:
  assumes "get registry k = Some v" "k \<notin> seen st"
  shows "card (fst ` set registry - seen (st\<lparr>visiting := setAdd (visiting st) k\<rparr>))
     < card (fst ` set registry - seen st)"
proof -
  have "(k, v) \<in> set registry" using assms(1) unfolding get_def by (rule map_of_SomeD)
  then have "k \<in> fst ` set registry" by force
  then have "fst ` set registry - seen (st\<lparr>visiting := setAdd (visiting st) k\<rparr>)
      \<subset> fst ` set registry - seen st"
    using assms(2) by (auto simp: setAdd_def seen_def)
  moreover have "finite (fst ` set registry - seen st)" by simp
  ultimately show ?thesis by (rule psubset_card_mono [rotated])
qed

lemma card_seen_le:
  "seen st \<subseteq> seen st' \<Longrightarrow> card (fst ` set m - seen st') \<le> card (fst ` set m - seen st)"
  by (rule card_mono) auto

termination visitOrder
proof (relation "inv_image (less_than <*lex*> less_than) visitOrderMeasure", goal_cases)
  case 1
  show ?case by (intro wf_inv_image wf_lex_prod wf_less_than)
next
  case (2 registry pluginId st st1 plugin deps)
  then have "pluginId \<notin> seen st" by (simp add: seen_def)
  with 2 show ?case by (simp add: visitOrderMeasure_def card_seen_less)
next
  case 3
  show ?case by (simp add: visitOrderMeasure_def)
next
  case (4 registry dep deps st st')
  then have "seen st \<subseteq> seen st'"
    using visitOrder_dom_mono(1) by blast
  then have "card (fst ` set registry - seen st') \<le> card (fst ` set registry - seen st)"
    by (rule card_seen_le)
  then show ?case by (auto simp: visitOrderMeasure_def)
qed

declare visitOrder.simps [simp del]


text \<open>
  \<open>a.localeCompare(b)\<close> is the collation of the host's locale, which the repository does not
  fix. It is a parameter \<open>localeKey\<close>, the collation key of a string:
  \<open>a.localeCompare(b)\<close> is negative, zero or positive as \<open>localeKey a\<close> is less than, equal to
  or greater than \<open>localeKey b\<close>. \<open>Array.sort\<close> is stable, as \<open>sort_key\<close> is. The default
  \<open>sort()\<close> compares strings by code units, as \<open>sort\<close> does on \<open>string\<close>.
\<close>

definition registered :: "PluginRegistry \<Rightarrow> PluginId \<Rightarrow> bool" where
  "registered registry i = (case get registry i of None \<Rightarrow> False | Some _ \<Rightarrow> True)"

definition missingDepsOf :: "PluginRegistry \<Rightarrow> Plugin \<Rightarrow> string list" where
  "missingDepsOf registry plugin =
     (case dependencies plugin of
        None \<Rightarrow> []
      | Some deps \<Rightarrow>
          concat (map (\<lambda>dep.
            if \<not> registered registry dep
            then [''Plugin '' @ id' plugin @ '' depends on unknown plugin: '' @ dep]
            else []) deps))"

definition resolvePluginOrder ::
  "(string \<Rightarrow> 'k::linorder) \<Rightarrow> Plugin list \<Rightarrow> PluginRegistry \<Rightarrow> error + Plugin list" where
  "resolvePluginOrder localeKey plugins registry =
     (let applicablePlugins = filter (\<lambda>p. registered registry (id' p)) plugins;
          graph = buildDependencyGraph applicablePlugins;
          cycleErrors = detectCycles graph
      in if length cycleErrors > 0 then Inl (DependencyCycle cycleErrors)
         else
           let missingDeps = concat (map (missingDepsOf registry) applicablePlugins)
           in if length missingDeps > 0 then Inl (MissingDependency missingDeps)
              else
                let sortedPlugins = sort_key (\<lambda>p. localeKey (id' p)) applicablePlugins
                in case visitOrderEach registry (map id' sortedPlugins)
                          \<lparr>sorted' = [], visited' = [], visiting = []\<rparr> of
                     Inl e \<Rightarrow> Inl e
                   | Inr st \<Rightarrow> Inr (sorted' st))"

section \<open>PhaseScheduler (plugin.ts)\<close>

definition phases :: "PluginPhase list" where
  "phases = [PhasePre, PhaseRender, PhasePost, PhaseCi]"

definition phaseOf :: "Plugin \<Rightarrow> PluginPhase" where
  "phaseOf plugin = (case phase plugin of None \<Rightarrow> PhaseRender | Some ph \<Rightarrow> ph)"

definition groupPluginsByPhase ::
  "(string \<Rightarrow> 'k::linorder) \<Rightarrow> Plugin list \<Rightarrow> (PluginPhase \<times> Plugin list) list" where
  "groupPluginsByPhase localeKey plugins =
     map (\<lambda>ph. (ph, sort_key (\<lambda>p. localeKey (id' p)) (filter (\<lambda>p. phaseOf p = ph) plugins)))
       phases"

section \<open>GenerationContext (context.ts)\<close>

definition addFile :: "FileMap \<Rightarrow> string \<Rightarrow> Buffer \<Rightarrow> FileMap" where
  "addFile files path content = mapSet files path content"

definition hasFile :: "FileMap \<Rightarrow> string \<Rightarrow> bool" where
  "hasFile files path = (path \<in> set (map fst files))"

definition getFile :: "FileMap \<Rightarrow> string \<Rightarrow> Buffer option" where
  "getFile files path = map_of files path"

text \<open>Running a plugin's \<open>apply\<close> against the context's files; \<open>Inl\<close> is the error thrown.\<close>

primrec runProg :: "prog \<Rightarrow> FileMap \<Rightarrow> string + FileMap" where
  "runProg Return files = Inr files"
| "runProg (Throw msg) files = Inl msg"
| "runProg (AddFile path content k) files = runProg k (addFile files path content)"
| "runProg (HasFile path k) files = runProg (k (hasFile files path)) files"
| "runProg (GetFile path k) files = runProg (k (getFile files path)) files"

text \<open>The paths that the run hands to \<open>addFile\<close>, in call order.\<close>

primrec written :: "prog \<Rightarrow> FileMap \<Rightarrow> string list" where
  "written Return files = []"
| "written (Throw msg) files = []"
| "written (AddFile path content k) files = path # written k (addFile files path content)"
| "written (HasFile path k) files = written (k (hasFile files path)) files"
| "written (GetFile path k) files = written (k (getFile files path)) files"

section \<open>Renderer (renderer.ts)\<close>

definition GENERATOR_VERSION :: string where "GENERATOR_VERSION = ''0.1.0''"
definition POLICY_VERSION :: string where "POLICY_VERSION = ''1.0.0''"

definition CR :: char where "CR = CHR 0x0D"
definition LF :: char where "LF = CHR 0x0A"

text \<open>\<open>text.replace(/\r\n/g, '\n')\<close> and \<open>text.replace(/\r/g, '\n')\<close>.\<close>

fun replaceCRLF :: "string \<Rightarrow> string" where
  "replaceCRLF [] = []"
| "replaceCRLF [c] = [c]"
| "replaceCRLF (c # d # cs) =
     (if c = CR \<and> d = LF then LF # replaceCRLF cs else c # replaceCRLF (d # cs))"

definition replaceCR :: "string \<Rightarrow> string" where
  "replaceCR cs = map (\<lambda>c. if c = CR then LF else c) cs"

text \<open>
  The buffer is decoded as UTF-8 and encoded again around the two replacements; both are
  the identity on the characters of a text.
\<close>

definition normalizeLineEndings :: "Buffer \<Rightarrow> Buffer" where
  "normalizeLineEndings content = replaceCR (replaceCRLF content)"

text \<open>
  \<open>createHash('sha256').update(x).digest('hex')\<close> is the parameter \<open>sha256hex\<close>.
\<close>

definition computeSha256 :: "(string \<Rightarrow> string) \<Rightarrow> Buffer \<Rightarrow> string" where
  "computeSha256 sha256hex content = sha256hex content"

definition sortFileMap :: "(string \<Rightarrow> 'k::linorder) \<Rightarrow> FileMap \<Rightarrow> (string \<times> Buffer) list" where
  "sortFileMap localeKey files = sort_key (\<lambda>(a, _). localeKey a) files"


text \<open>
  \<open>JSON.stringify(value, allowlist)\<close> on an object with string properties: the properties
  named by the allowlist, in its order, each as \<open>"key":"value"\<close>, with the string quoting
  of JSON.
\<close>

definition backslash :: char where "backslash = CHR 0x5C"
definition dquote :: char where "dquote = CHR 0x22"

definition hexDigit :: "nat \<Rightarrow> char" where
  "hexDigit n = ''0123456789abcdef'' ! n"

definition escapeChar :: "char \<Rightarrow> string" where
  "escapeChar c =
     (if c = CHR 0x08 then [backslash, CHR ''b'']
      else if c = CHR 0x09 then [backslash, CHR ''t'']
      else if c = CHR 0x0A then [backslash, CHR ''n'']
      else if c = CHR 0x0C then [backslash, CHR ''f'']
      else if c = CHR 0x0D then [backslash, CHR ''r'']
      else if c = dquote then [backslash, dquote]
      else if c = backslash then [backslash, backslash]
      else if (of_char c :: nat) < 0x20 then
        [backslash, CHR ''u'', CHR ''0'', CHR ''0'',
         hexDigit (of_char c div 16), hexDigit (of_char c mod 16)]
      else [c])"

definition quoteJSONString :: "string \<Rightarrow> string" where
  "quoteJSONString s = dquote # concat (map escapeChar s) @ [dquote]"

definition serializeProperty :: "string \<times> string \<Rightarrow> string" where
  "serializeProperty kv = quoteJSONString (fst kv) @ '':'' @ quoteJSONString (snd kv)"

definition properties :: "ProjectConfig \<Rightarrow> string list \<Rightarrow> (string \<times> string) list" where
  "properties value allowlist =
     concat (map (\<lambda>k. case map_of value k of None \<Rightarrow> [] | Some v \<Rightarrow> [(k, v)]) (newSet allowlist))"

definition stringify :: "ProjectConfig \<Rightarrow> string list \<Rightarrow> string" where
  "stringify value allowlist =
     ''{'' @ join (map serializeProperty (properties value allowlist)) '','' @ ''}''"

definition computeConfigHash :: "(string \<Rightarrow> string) \<Rightarrow> ProjectConfig \<Rightarrow> string" where
  "computeConfigHash sha256hex config = sha256hex (stringify config (sort (map fst config)))"

text \<open>What the render loop mutates: \<open>context.files\<close> and \<open>fileWriters\<close>.\<close>

record renderState =
  contextFiles :: FileMap
  fileWriters :: "(string \<times> PluginId list) list"

text \<open>A \<open>for\<close> loop whose body may throw.\<close>

fun forEach :: "('s \<Rightarrow> 'a \<Rightarrow> error + 's) \<Rightarrow> 'a list \<Rightarrow> 's \<Rightarrow> error + 's" where
  "forEach body [] st = Inr st"
| "forEach body (x # xs) st =
     (case body st x of Inl e \<Rightarrow> Inl e | Inr st' \<Rightarrow> forEach body xs st')"

definition recordWriter ::
  "PluginId \<Rightarrow> string list \<Rightarrow> (string \<times> PluginId list) list \<Rightarrow> string
   \<Rightarrow> (string \<times> PluginId list) list" where
  "recordWriter pluginId beforeFiles fw path =
     (if path \<notin> set beforeFiles then
        let writers = (case map_of fw path of None \<Rightarrow> [] | Some ws \<Rightarrow> ws)
        in mapSet fw path (writers @ [pluginId])
      else fw)"

definition applyPlugin :: "ProjectConfig \<Rightarrow> Policy \<Rightarrow> renderState \<Rightarrow> Plugin \<Rightarrow> error + renderState" where
  "applyPlugin config policy st plugin =
     (let beforeFiles = map fst (contextFiles st) in
      case runProg (apply' plugin config policy) (contextFiles st) of
        Inl msg \<Rightarrow> Inl (PluginApplyFailure msg)
      | Inr files1 \<Rightarrow>
          let afterFiles = map fst files1
          in Inr \<lparr>contextFiles = files1,
                  fileWriters = foldl (recordWriter (id' plugin) beforeFiles) (fileWriters st) afterFiles\<rparr>)"

definition policyOf :: "PluginRegistry \<Rightarrow> PluginId \<Rightarrow> ConflictPolicy" where
  "policyOf registry i =
     (case get registry i of
        None \<Rightarrow> PolicyError
      | Some plugin \<Rightarrow> (case conflictPolicy plugin of None \<Rightarrow> PolicyError | Some c \<Rightarrow> c))"

definition conflicting :: "PluginRegistry \<Rightarrow> string \<times> PluginId list \<Rightarrow> bool" where
  "conflicting registry entry =
     (length (snd entry) > 1 \<and> list_ex (\<lambda>p. p = PolicyError) (map (policyOf registry) (snd entry)))"

record ManifestFile =
  path :: string
  sha256 :: string

record Manifest =
  generatorVersion :: string
  policyVersion :: string
  configHash :: string
  files' :: "ManifestFile list"

record RenderResult =
  files :: "(string \<times> Buffer) list"
  manifest :: Manifest

definition render ::
  "(string \<Rightarrow> 'k::linorder) \<Rightarrow> (string \<Rightarrow> string) \<Rightarrow> PluginRegistry \<Rightarrow> ProjectConfig \<Rightarrow> Policy
   \<Rightarrow> FileMap option \<Rightarrow> error + RenderResult" where
  "render localeKey sha256hex registry config policy existingFiles =
     (let allPlugins = getAll registry;
          applicablePlugins = filter (\<lambda>p. appliesTo p config) allPlugins;
          graph = buildDependencyGraph applicablePlugins;
          cycleErrors = detectCycles graph
      in if length cycleErrors > 0 then Inl (DependencyCycle cycleErrors)
         else
           case resolvePluginOrder localeKey applicablePlugins registry of
             Inl e \<Rightarrow> Inl e
           | Inr orderedPlugins \<Rightarrow>
               let groupedPlugins = groupPluginsByPhase localeKey orderedPlugins;
                   context = \<lparr>contextFiles = (case existingFiles of None \<Rightarrow> [] | Some fs \<Rightarrow> fs),
                              fileWriters = []\<rparr>
               in case forEach (\<lambda>st ph.
                          forEach (applyPlugin config policy)
                            (case map_of groupedPlugins ph of None \<Rightarrow> [] | Some ps \<Rightarrow> ps) st)
                        phases context of
                    Inl e \<Rightarrow> Inl e
                  | Inr st \<Rightarrow>
                      (case find (conflicting registry) (fileWriters st) of
                         Some (p, writers) \<Rightarrow> Inl (FileConflict p writers)
                       | None \<Rightarrow>
                           let normalizedFiles =
                                 map (\<lambda>(p, content). (p, normalizeLineEndings content))
                                   (contextFiles st);
                               sortedFiles = sortFileMap localeKey normalizedFiles;
                               manifestFiles =
                                 map (\<lambda>(p, content).
                                       \<lparr>path = p, sha256 = computeSha256 sha256hex content\<rparr>)
                                   sortedFiles
                           in Inr \<lparr>files = sortedFiles,
                                   manifest =
                                     \<lparr>generatorVersion = GENERATOR_VERSION,
                                      policyVersion = POLICY_VERSION,
                                      configHash = computeConfigHash sha256hex config,
                                      files' = manifestFiles\<rparr>\<rparr>))"


section \<open>Renderer: what a run writes\<close>

text \<open>The plugins of a render in the order their \<open>apply\<close> runs: phase by phase.\<close>

definition runOrder :: "(string \<Rightarrow> 'k::linorder) \<Rightarrow> Plugin list \<Rightarrow> Plugin list" where
  "runOrder localeKey orderedPlugins =
     concat (map (\<lambda>ph. case map_of (groupPluginsByPhase localeKey orderedPlugins) ph of
                         None \<Rightarrow> [] | Some ps \<Rightarrow> ps) phases)"




section \<open>Example plugins\<close>

text \<open>A plugin that applies always and whose \<open>apply\<close> is \<open>ctx.addFile(p, c)\<close>.\<close>

definition writer :: "PluginId \<Rightarrow> string \<Rightarrow> Buffer \<Rightarrow> Plugin" where
  "writer i p c = (TestPlugin i None None)\<lparr>apply' := (\<lambda>_ _. AddFile p c Return)\<rparr>"

section \<open>Sets and maps in insertion order: lemmas\<close>




lemma map_fst_mapSet: "map fst (mapSet m k v) = setAdd (map fst m) k"
proof -
  have "map fst (map (\<lambda>(k', v'). if k' = k then (k', v) else (k', v')) m) = map fst m"
    by (induction m) auto
  then show ?thesis by (simp add: mapSet_def setAdd_def)
qed



section \<open>Dependency graph: proofs\<close>

text \<open>
  C2. \<open>detectCycles\<close> walks \<open>graph.nodes\<close> and each dependency set in insertion order and
  sorts neither. The plugins a (depending on b) and b (depending on a) give the same node
  set and the same edge sets in either input order, and two different cycle texts.
\<close>

theorem detectCycles_insertion_order:
  "set (nodes (buildDependencyGraph
       [TestPlugin ''a'' (Some [''b'']) None, TestPlugin ''b'' (Some [''a'']) None]))
     = set (nodes (buildDependencyGraph
       [TestPlugin ''b'' (Some [''a'']) None, TestPlugin ''a'' (Some [''b'']) None]))
   \<and> (\<lambda>n. map_option set (map_of (edges (buildDependencyGraph
         [TestPlugin ''a'' (Some [''b'']) None, TestPlugin ''b'' (Some [''a'']) None])) n))
     = (\<lambda>n. map_option set (map_of (edges (buildDependencyGraph
         [TestPlugin ''b'' (Some [''a'']) None, TestPlugin ''a'' (Some [''b'']) None])) n))
   \<and> detectCycles (buildDependencyGraph
         [TestPlugin ''a'' (Some [''b'']) None, TestPlugin ''b'' (Some [''a'']) None])
       = [''Dependency cycle detected: a -> b -> a'']
   \<and> detectCycles (buildDependencyGraph
         [TestPlugin ''b'' (Some [''a'']) None, TestPlugin ''a'' (Some [''b'']) None])
       = [''Dependency cycle detected: b -> a -> b'']"
proof -
  have g1: "buildDependencyGraph
       [TestPlugin ''a'' (Some [''b'']) None, TestPlugin ''b'' (Some [''a'']) None]
     = \<lparr>nodes = [''a'', ''b''], edges = [(''a'', [''b'']), (''b'', [''a''])]\<rparr>"
    by code_simp
  have g2: "buildDependencyGraph
       [TestPlugin ''b'' (Some [''a'']) None, TestPlugin ''a'' (Some [''b'']) None]
     = \<lparr>nodes = [''b'', ''a''], edges = [(''b'', [''a'']), (''a'', [''b''])]\<rparr>"
    by code_simp
  have c1: "detectCycles \<lparr>nodes = [''a'', ''b''], edges = [(''a'', [''b'']), (''b'', [''a''])]\<rparr>
      = [''Dependency cycle detected: a -> b -> a'']"
    by code_simp
  have c2: "detectCycles \<lparr>nodes = [''b'', ''a''], edges = [(''b'', [''a'']), (''a'', [''b''])]\<rparr>
      = [''Dependency cycle detected: b -> a -> b'']"
    by code_simp
  show ?thesis
    unfolding g1 g2 c1 c2 by (auto simp: fun_eq_iff)
qed

text \<open>
  C4, as the code has it. \<open>resolvePluginOrder\<close> does not reject a candidate whose id is not
  registered: it drops such candidates and resolves the others, so its result is the one
  for the candidate list without them, and a list of unregistered candidates alone gives
  the empty order.
\<close>

theorem resolvePluginOrder_drops_unregistered:
  "resolvePluginOrder localeKey plugins registry
     = resolvePluginOrder localeKey (filter (\<lambda>p. registered registry (id' p)) plugins) registry
   \<and> ((\<forall>p \<in> set plugins. \<not> registered registry (id' p)) \<longrightarrow>
        resolvePluginOrder localeKey plugins registry = Inr [])"
proof -
  have empty: "detectCycles (buildDependencyGraph []) = []"
    by (simp add: detectCycles_def buildDependencyGraph_def)
  have "filter (\<lambda>p. registered registry (id' p)) plugins = []
      \<Longrightarrow> resolvePluginOrder localeKey plugins registry = Inr []"
    by (simp add: resolvePluginOrder_def empty)
  moreover have "(\<forall>p \<in> set plugins. \<not> registered registry (id' p))
      \<Longrightarrow> filter (\<lambda>p. registered registry (id' p)) plugins = []"
    by (simp add: filter_empty_conv)
  ultimately show ?thesis
    by (auto simp: resolvePluginOrder_def)
qed

theorem resolvePluginOrder_drops_unregistered_witness:
  "\<not> registered [(''a'', TestPlugin ''a'' None None)] (id' (TestPlugin ''x'' None None))
   \<and> \<not> registered [(''a'', TestPlugin ''a'' None None)] (id' (TestPlugin ''y'' None None))
   \<and> resolvePluginOrder (\<lambda>s. s) [TestPlugin ''x'' None None, TestPlugin ''y'' None None]
         [(''a'', TestPlugin ''a'' None None)] = Inr []"
proof -
  have h: "\<forall>p \<in> set [TestPlugin ''x'' None None, TestPlugin ''y'' None None].
      \<not> registered [(''a'', TestPlugin ''a'' None None)] (id' p)"
    by (simp add: registered_def get_def TestPlugin_def)
  with resolvePluginOrder_drops_unregistered
    [of "\<lambda>s. s" "[TestPlugin ''x'' None None, TestPlugin ''y'' None None]"
      "[(''a'', TestPlugin ''a'' None None)]"]
  have "resolvePluginOrder (\<lambda>s. s) [TestPlugin ''x'' None None, TestPlugin ''y'' None None]
         [(''a'', TestPlugin ''a'' None None)] = Inr []"
    by blast
  with h show ?thesis by simp
qed

theorem resolvePluginOrder_unregistered_counterexample:
  "\<not> registered [] (id' (TestPlugin ''x'' None None))
   \<and> resolvePluginOrder (\<lambda>s. s) [TestPlugin ''x'' None None] [] = Inr []"
  by (simp add: resolvePluginOrder_def registered_def get_def detectCycles_def
      buildDependencyGraph_def)

section \<open>Dependency order: proofs\<close>





































text \<open>
  The visit follows the registry's dependencies beyond the candidates, while the cycle and
  missing-dependency checks look at the candidates only. With the single candidate a,
  which depends on b, and registered plugins b and c that depend on each other, no cycle
  is reported and c is emitted before its dependency b. This is why the theorem above
  asks for an acyclic registry, not only for acyclic candidates.
\<close>

lemma resolvePluginOrder_cycle_outside_candidates:
  "map_sum (\<lambda>e. e) (map id') (resolvePluginOrder (\<lambda>s. s)
     [TestPlugin ''a'' (Some [''b'']) None]
     [(''a'', TestPlugin ''a'' (Some [''b'']) None),
      (''b'', TestPlugin ''b'' (Some [''c'']) None),
      (''c'', TestPlugin ''c'' (Some [''b'']) None)])
   = Inr [''c'', ''b'', ''a'']"
  by code_simp

section \<open>Renderer: proofs\<close>




lemma runProg_keys:
  "runProg prog fs = Inr fs1 \<Longrightarrow> map fst fs1 = foldl setAdd (map fst fs) (written prog fs)"
  by (induction prog arbitrary: fs) (auto simp: addFile_def map_fst_mapSet)

lemma forEach_nested:
  "forEach (\<lambda>st x. forEach body (f x) st) xs st = forEach body (concat (map f xs)) st"
proof -
  have app: "\<And>ys zs st. forEach body (ys @ zs) st =
      (case forEach body ys st of Inl e \<Rightarrow> Inl e | Inr st1 \<Rightarrow> forEach body zs st1)"
  proof -
    fix ys zs st
    show "forEach body (ys @ zs) st =
      (case forEach body ys st of Inl e \<Rightarrow> Inl e | Inr st1 \<Rightarrow> forEach body zs st1)"
      by (induction ys arbitrary: st) (auto split: sum.splits)
  qed
  show ?thesis
    by (induction xs arbitrary: st) (auto simp: app split: sum.splits)
qed


text \<open>What a successful \<open>render\<close> went through.\<close>

lemma render_Inr:
  assumes "render localeKey sha256hex registry config policy existingFiles = Inr res"
  obtains orderedPlugins st where
    "resolvePluginOrder localeKey (filter (\<lambda>p. appliesTo p config) (getAll registry)) registry
       = Inr orderedPlugins"
    "forEach (applyPlugin config policy) (runOrder localeKey orderedPlugins)
       \<lparr>contextFiles = (case existingFiles of None \<Rightarrow> [] | Some fs \<Rightarrow> fs), fileWriters = []\<rparr>
       = Inr st"
    "files res = sortFileMap localeKey
       (map (\<lambda>(p, content). (p, normalizeLineEndings content)) (contextFiles st))"
    "files' (manifest res) =
       map (\<lambda>(p, content). \<lparr>path = p, sha256 = sha256hex content\<rparr>) (files res)"
    "configHash (manifest res) = computeConfigHash sha256hex config"
proof -
  from assms obtain orderedPlugins where
    ord: "resolvePluginOrder localeKey (filter (\<lambda>p. appliesTo p config) (getAll registry))
           registry = Inr orderedPlugins"
    by (auto simp: render_def Let_def split: if_splits sum.splits)
  from assms ord obtain st where
    run: "forEach (\<lambda>st ph. forEach (applyPlugin config policy)
            (case map_of (groupPluginsByPhase localeKey orderedPlugins) ph of
               None \<Rightarrow> [] | Some ps \<Rightarrow> ps) st) phases
          \<lparr>contextFiles = (case existingFiles of None \<Rightarrow> [] | Some fs \<Rightarrow> fs), fileWriters = []\<rparr>
          = Inr st"
    by (auto simp: render_def Let_def split: if_splits sum.splits)
  from assms ord run have res: "res =
      \<lparr>files = sortFileMap localeKey
          (map (\<lambda>(p, content). (p, normalizeLineEndings content)) (contextFiles st)),
       manifest =
         \<lparr>generatorVersion = GENERATOR_VERSION, policyVersion = POLICY_VERSION,
          configHash = computeConfigHash sha256hex config,
          files' = map (\<lambda>(p, content). \<lparr>path = p, sha256 = computeSha256 sha256hex content\<rparr>)
            (sortFileMap localeKey
              (map (\<lambda>(p, content). (p, normalizeLineEndings content)) (contextFiles st)))\<rparr>\<rparr>"
    by (auto simp: render_def Let_def split: if_splits option.splits prod.splits)
  show thesis
  proof (rule that [OF ord])
    show "forEach (applyPlugin config policy) (runOrder localeKey orderedPlugins)
       \<lparr>contextFiles = (case existingFiles of None \<Rightarrow> [] | Some fs \<Rightarrow> fs), fileWriters = []\<rparr>
       = Inr st"
      using run by (simp add: forEach_nested runOrder_def)
  qed (simp_all add: res computeSha256_def)
qed


lemma foldl_setAdd_new:
  "\<exists>new. foldl setAdd ks ws = ks @ new \<and> distinct new \<and> set new \<inter> set ks = {}"
proof (induction ws arbitrary: ks)
  case Nil
  show ?case by simp
next
  case (Cons w ws)
  from Cons.IH [of "setAdd ks w"] obtain new where
    n: "foldl setAdd (setAdd ks w) ws = setAdd ks w @ new" "distinct new"
      "set new \<inter> set (setAdd ks w) = {}"
    by blast
  show ?case
  proof (cases "w \<in> set ks")
    case True
    then have "setAdd ks w = ks" by (simp add: setAdd_def)
    with n have "foldl setAdd ks (w # ws) = ks @ new" "set new \<inter> set ks = {}"
      by simp_all
    with n(2) show ?thesis by blast
  next
    case False
    then have e: "setAdd ks w = ks @ [w]" by (simp add: setAdd_def)
    with n have "foldl setAdd ks (w # ws) = ks @ (w # new)" "distinct (w # new)"
      "set (w # new) \<inter> set ks = {}"
      using False by auto
    then show ?thesis by blast
  qed
qed

text \<open>Each recorded path has exactly one writer, and is a path of the context.\<close>

definition singleWriters :: "renderState \<Rightarrow> bool" where
  "singleWriters st =
     ((\<forall>entry \<in> set (fileWriters st). length (snd entry) = 1)
      \<and> set (map fst (fileWriters st)) \<subseteq> set (map fst (contextFiles st)))"

lemma recordWriter_old:
  "set ps \<subseteq> set beforeFiles \<Longrightarrow> foldl (recordWriter i beforeFiles) fw ps = fw"
  by (induction ps arbitrary: fw) (simp_all add: recordWriter_def)

lemma recordWriter_new:
  "distinct new \<Longrightarrow> set new \<inter> set beforeFiles = {} \<Longrightarrow> set new \<inter> set (map fst fw) = {} \<Longrightarrow>
   foldl (recordWriter i beforeFiles) fw new = fw @ map (\<lambda>p. (p, [i])) new"
proof (induction new arbitrary: fw)
  case Nil
  show ?case by simp
next
  case (Cons p new)
  from Cons.prems(3) have none: "map_of fw p = None"
    by (auto simp: map_of_eq_None_iff)
  from Cons.prems have step: "recordWriter i beforeFiles fw p = fw @ [(p, [i])]"
    using none by (auto simp: recordWriter_def mapSet_def)
  have "set new \<inter> set (map fst (fw @ [(p, [i])])) = {}"
    using Cons.prems(1,3) by auto
  with Cons.IH [of "fw @ [(p, [i])]"] Cons.prems(1,2) step show ?case by simp
qed

lemma applyPlugin_singleWriters:
  assumes "applyPlugin config policy st plugin = Inr st1" "singleWriters st"
  shows "singleWriters st1"
proof -
  let ?before = "map fst (contextFiles st)"
  from assms(1) obtain files1 where
    run: "runProg (apply' plugin config policy) (contextFiles st) = Inr files1"
    by (auto simp: applyPlugin_def Let_def split: sum.splits)
  with assms(1) have st1: "st1 = \<lparr>contextFiles = files1,
      fileWriters = foldl (recordWriter (id' plugin) ?before) (fileWriters st) (map fst files1)\<rparr>"
    by (simp add: applyPlugin_def Let_def)
  from runProg_keys [OF run] foldl_setAdd_new [of ?before]
  obtain new where keys: "map fst files1 = ?before @ new" and d: "distinct new"
    and disj: "set new \<inter> set ?before = {}"
    by metis
  from assms(2) have sub: "set (map fst (fileWriters st)) \<subseteq> set ?before"
    and one: "\<forall>entry \<in> set (fileWriters st). length (snd entry) = 1"
    by (simp_all add: singleWriters_def)
  from disj sub have disj2: "set new \<inter> set (map fst (fileWriters st)) = {}" by blast
  have "foldl (recordWriter (id' plugin) ?before) (fileWriters st) (?before @ new)
      = fileWriters st @ map (\<lambda>p. (p, [id' plugin])) new"
    using recordWriter_old [of ?before ?before "id' plugin" "fileWriters st"]
      recordWriter_new [OF d disj disj2, of "id' plugin"]
    by simp
  with st1 keys have fw: "fileWriters st1 = fileWriters st @ map (\<lambda>p. (p, [id' plugin])) new"
    and cf: "map fst (contextFiles st1) = ?before @ new"
    by simp_all
  show ?thesis
    unfolding singleWriters_def fw cf using one sub by (auto simp: comp_def)
qed

lemma forEach_singleWriters:
  "forEach (applyPlugin config policy) plugins st = Inr st1 \<Longrightarrow> singleWriters st \<Longrightarrow>
   singleWriters st1"
proof (induction plugins arbitrary: st)
  case Nil
  then show ?case by simp
next
  case (Cons plugin plugins)
  from Cons.prems(1) obtain st2 where s2: "applyPlugin config policy st plugin = Inr st2"
    and rest: "forEach (applyPlugin config policy) plugins st2 = Inr st1"
    by (auto split: sum.splits)
  from applyPlugin_singleWriters [OF s2 Cons.prems(2)] Cons.IH [OF rest] show ?case by simp
qed

lemma singleWriters_no_conflict:
  "singleWriters st \<Longrightarrow> find (conflicting registry) (fileWriters st) = None"
  by (auto simp: singleWriters_def find_None_iff conflicting_def)

lemma forEach_applyPlugin_error:
  "forEach (applyPlugin config policy) plugins st = Inl e \<Longrightarrow> \<exists>msg. e = PluginApplyFailure msg"
proof (induction plugins arbitrary: st)
  case Nil
  then show ?case by simp
next
  case (Cons plugin plugins)
  then show ?case
    by (auto simp: applyPlugin_def Let_def split: sum.splits)
qed

lemma visitOrder_error:
  "visitOrder registry pluginId st = Inl e \<Longrightarrow> \<exists>i. e = PluginNotFound i"
  "visitOrderEach registry deps st = Inl e \<Longrightarrow> \<exists>i. e = PluginNotFound i"
proof (induction registry pluginId st and registry deps st
    rule: visitOrder_visitOrderEach.induct)
  case (1 registry pluginId st)
  from "1.prems" show ?case
    using "1.IH"
    by (auto simp: visitOrder.simps Let_def split: if_splits option.splits sum.splits)
next
  case (2 registry st)
  then show ?case by simp
next
  case (3 registry dep deps st)
  from "3.prems" "3.IH" show ?case by (auto split: sum.splits)
qed

lemma resolvePluginOrder_error:
  "resolvePluginOrder localeKey plugins registry = Inl e \<Longrightarrow>
   (\<exists>msgs. e = DependencyCycle msgs) \<or> (\<exists>msgs. e = MissingDependency msgs)
   \<or> (\<exists>i. e = PluginNotFound i)"
  by (auto simp: resolvePluginOrder_def Let_def split: if_splits sum.splits
      dest: visitOrder_error(2))

text \<open>
  The conflict check of \<open>render\<close> never fires: whatever the plugins write, no path gets a
  second recorded writer, so \<open>render\<close> never fails with a file conflict.
\<close>

lemma render_never_FileConflict:
  "render localeKey sha256hex registry config policy existingFiles \<noteq> Inl (FileConflict p ws)"
proof
  assume r: "render localeKey sha256hex registry config policy existingFiles
      = Inl (FileConflict p ws)"
  let ?applicable = "filter (\<lambda>p. appliesTo p config) (getAll registry)"
  let ?st0 = "\<lparr>contextFiles = (case existingFiles of None \<Rightarrow> [] | Some fs \<Rightarrow> fs),
               fileWriters = []\<rparr>"
  from r have nocyc: "\<not> length (detectCycles (buildDependencyGraph ?applicable)) > 0"
    by (auto simp: render_def Let_def split: if_splits)
  from r nocyc obtain orderedPlugins where
    ord: "resolvePluginOrder localeKey ?applicable registry = Inr orderedPlugins"
    using resolvePluginOrder_error [of localeKey ?applicable registry "FileConflict p ws"]
    by (auto simp: render_def Let_def split: if_splits sum.splits)
  let ?run = "forEach (\<lambda>st ph. forEach (applyPlugin config policy)
            (case map_of (groupPluginsByPhase localeKey orderedPlugins) ph of
               None \<Rightarrow> [] | Some ps \<Rightarrow> ps) st) phases ?st0"
  have flat: "?run = forEach (applyPlugin config policy) (runOrder localeKey orderedPlugins) ?st0"
    by (simp add: forEach_nested runOrder_def)
  from r nocyc ord obtain st where run: "?run = Inr st"
    using forEach_applyPlugin_error [of config policy "runOrder localeKey orderedPlugins" ?st0
        "FileConflict p ws"] flat
    by (auto simp: render_def Let_def split: if_splits sum.splits)
  have "singleWriters ?st0" by (simp add: singleWriters_def)
  with run flat have "singleWriters st" by (metis forEach_singleWriters)
  then have "find (conflicting registry) (fileWriters st) = None"
    by (rule singleWriters_no_conflict)
  with r nocyc ord run show False
    by (simp add: render_def Let_def)
qed

text \<open>
  C1. Two plugins, a and b, each call \<open>addFile('out.txt', ...)\<close> and neither declares a
  conflict policy, so both default to error. \<open>render\<close> records a writer for a path only
  when the path is new to the context, so it records a alone, finds no conflict, and
  returns the file map with b's content.
\<close>

theorem render_same_path_no_conflict:
  "render (\<lambda>s. s) sha256hex
     [(''a'', writer ''a'' ''out.txt'' ''A''), (''b'', writer ''b'' ''out.txt'' ''B'')]
     [] BASE_POLICY None
   = Inr \<lparr>files = [(''out.txt'', ''B'')],
          manifest = \<lparr>generatorVersion = ''0.1.0'', policyVersion = ''1.0.0'',
                      configHash = sha256hex ''{}'',
                      files' = [\<lparr>path = ''out.txt'', sha256 = sha256hex ''B''\<rparr>]\<rparr>\<rparr>"
  by code_simp


text \<open>
  A collation in which case matters less than the letter, as in the collations of ICU,
  the library behind \<open>localeCompare\<close>: on strings of ASCII letters the letters are compared
  without regard to case, and case decides between equal letters only, lower case first.
\<close>

definition toLower :: "char \<Rightarrow> char" where
  "toLower c = (if CHR ''A'' \<le> c \<and> c \<le> CHR ''Z'' then char_of (of_char c + (32::nat)) else c)"

definition isUpper :: "char \<Rightarrow> bool" where
  "isUpper c = (CHR ''A'' \<le> c \<and> c \<le> CHR ''Z'')"

definition letterCaseKey :: "string \<Rightarrow> string \<times> bool list" where
  "letterCaseKey s = (map toLower s, map isUpper s)"

text \<open>A plugin whose \<open>apply\<close> adds the files \<open>B\<close> and \<open>a\<close>.\<close>

definition twoFiles :: Plugin where
  "twoFiles = (TestPlugin ''p'' None None)
     \<lparr>apply' := (\<lambda>_ _. AddFile ''B'' ''1'' (AddFile ''a'' ''2'' Return))\<rparr>"

lemma render_sorted_by_collation:
  assumes "render localeKey sha256hex registry config policy existingFiles = Inr res"
  shows "sorted (map localeKey (map fst (files res)))
    \<and> map path (files' (manifest res)) = map fst (files res)"
proof -
  from assms obtain orderedPlugins st where
    "resolvePluginOrder localeKey (filter (\<lambda>p. appliesTo p config) (getAll registry))
           registry = Inr orderedPlugins"
    and "forEach (applyPlugin config policy) (runOrder localeKey orderedPlugins)
       \<lparr>contextFiles = (case existingFiles of None \<Rightarrow> [] | Some fs \<Rightarrow> fs), fileWriters = []\<rparr>
       = Inr st"
    and f: "files res = sortFileMap localeKey
       (map (\<lambda>(p, content). (p, normalizeLineEndings content)) (contextFiles st))"
    and m: "files' (manifest res) =
       map (\<lambda>(p, content). \<lparr>path = p, sha256 = sha256hex content\<rparr>) (files res)"
    by (rule render_Inr)
  have eq: "\<And>xs :: (string \<times> Buffer) list.
      map localeKey (map fst xs) = map (\<lambda>(a, _). localeKey a) xs"
    by (simp add: case_prod_unfold comp_def)
  have "sorted (map localeKey (map fst (files res)))"
    unfolding f sortFileMap_def eq by (rule sorted_sort_key)
  moreover have "map path (files' (manifest res)) = map fst (files res)"
    by (simp add: m case_prod_unfold comp_def)
  ultimately show ?thesis by simp
qed

text \<open>
  C3. The file map and the manifest list the same paths in the same order, and that order
  is the one of \<open>localeCompare\<close>, not the one of character codes: under a collation that
  puts a before B, a plugin that adds the files B and a gives the paths a, B, while their
  sort by character code is B, a. The repository's own tests compare the paths with
  \<open>paths.slice().sort()\<close>, the sort by character code.
\<close>

theorem render_order_is_collation_order:
  "map_sum (\<lambda>e. e) (\<lambda>res. map fst (files res))
     (render letterCaseKey sha256hex [(''p'', twoFiles)] [] BASE_POLICY None)
     = Inr [''a'', ''B'']
   \<and> map_sum (\<lambda>e. e) (\<lambda>res. map path (files' (manifest res)))
     (render letterCaseKey sha256hex [(''p'', twoFiles)] [] BASE_POLICY None)
     = Inr [''a'', ''B'']
   \<and> sort [''a'', ''B''] = [''B'', ''a'']"
  by code_simp






section \<open>Config hash: proofs\<close>





















end
